theory Spec2Isabelle
  imports Complex_Main "HOL-Library.Multiset" "HOL-Library.List_Lexorder" "HOL-Library.Char_ord"
begin

section \<open>JavaScript values as the Refine component handles them\<close>

text \<open>
  The histogram rows and the edit records of \<^verbatim>\<open>Refine\<close> are plain objects decoded from
  JSON. Their property values are modelled by the primitive values below. Numbers are
  modelled by the integers (the occurrence counts; exact for doubles below \<open>2^53\<close>)
  together with \<open>NaN\<close>, which \<^verbatim>\<open>undefined + 1\<close> produces. Objects as property values
  are outside the model.
\<close>

datatype jsval =
    JUndefined
  | JNull
  | JBool bool
  | JNum int
  | JNaN
  | JStr string

text \<open>A plain object: its own properties. Reading a missing property gives \<^verbatim>\<open>undefined\<close>.\<close>

type_synonym row = "string \<rightharpoonup> jsval"

definition getProp :: "row \<Rightarrow> string \<Rightarrow> jsval" where
  "getProp r k = (case r k of None \<Rightarrow> JUndefined | Some v \<Rightarrow> v)"

text \<open>An entry of the edit log, \<^verbatim>\<open>{ column, fromVal, toVal, timestamp }\<close>.\<close>

record edit =
  column :: string
  fromVal :: jsval
  toVal :: jsval
  timestamp :: int

subsection \<open>The operators \<^verbatim>\<open>==\<close> and \<^verbatim>\<open>+\<close>\<close>

text \<open>
  \<^verbatim>\<open>==\<close> is the loose equality of the language. A boolean operand is first converted
  to a number; \<^verbatim>\<open>null\<close> and \<^verbatim>\<open>undefined\<close> equal each other and nothing else;
  \<open>NaN\<close> equals nothing; a string compared with a number is converted to a number
  first. That last conversion (the numeric-literal grammar of the language) is the
  parameter \<open>tn\<close> of the model: every statement below holds for each such conversion.
\<close>

definition unbool :: "jsval \<Rightarrow> jsval" where
  "unbool v = (case v of JBool b \<Rightarrow> JNum (if b then 1 else 0) | _ \<Rightarrow> v)"

fun num_eq :: "jsval \<Rightarrow> jsval \<Rightarrow> bool" where
  "num_eq (JNum a) (JNum b) = (a = b)"
| "num_eq _ _ = False"

fun loose_eq0 :: "(string \<Rightarrow> jsval) \<Rightarrow> jsval \<Rightarrow> jsval \<Rightarrow> bool" where
  "loose_eq0 tn JUndefined y = (y = JUndefined \<or> y = JNull)"
| "loose_eq0 tn JNull y = (y = JUndefined \<or> y = JNull)"
| "loose_eq0 tn (JStr s) (JStr t) = (s = t)"
| "loose_eq0 tn (JStr s) y = num_eq (tn s) y"
| "loose_eq0 tn x (JStr t) = num_eq x (tn t)"
| "loose_eq0 tn x y = num_eq x y"

definition loose_eq :: "(string \<Rightarrow> jsval) \<Rightarrow> jsval \<Rightarrow> jsval \<Rightarrow> bool" where
  "loose_eq tn x y = loose_eq0 tn (unbool x) (unbool y)"

text \<open>Decimal digits of a natural number, for the conversion of a number to a string.\<close>

fun nat_digits :: "nat \<Rightarrow> string" where
  "nat_digits n =
     (if n < 10 then [''0123456789'' ! n]
      else nat_digits (n div 10) @ [''0123456789'' ! (n mod 10)])"

definition ToString :: "jsval \<Rightarrow> string" where
  "ToString v =
     (case v of
        JUndefined \<Rightarrow> ''undefined''
      | JNull \<Rightarrow> ''null''
      | JBool b \<Rightarrow> (if b then ''true'' else ''false'')
      | JNum n \<Rightarrow> (if n < 0 then CHR ''-'' # nat_digits (nat (- n)) else nat_digits (nat n))
      | JNaN \<Rightarrow> ''NaN''
      | JStr s \<Rightarrow> s)"

text \<open>
  \<^verbatim>\<open>a + b\<close>: concatenation as soon as one operand is a string, the sum of the operands
  converted to numbers otherwise (\<^verbatim>\<open>undefined\<close> converts to \<open>NaN\<close>, \<^verbatim>\<open>null\<close> to 0).
\<close>

definition ToNumber :: "jsval \<Rightarrow> jsval" where
  "ToNumber v =
     (case v of
        JUndefined \<Rightarrow> JNaN
      | JNull \<Rightarrow> JNum 0
      | JBool b \<Rightarrow> JNum (if b then 1 else 0)
      | _ \<Rightarrow> v)"

fun num_add :: "jsval \<Rightarrow> jsval \<Rightarrow> jsval" where
  "num_add (JNum a) (JNum b) = JNum (a + b)"
| "num_add _ _ = JNaN"

definition is_str :: "jsval \<Rightarrow> bool" where
  "is_str v = (case v of JStr _ \<Rightarrow> True | _ \<Rightarrow> False)"

definition js_add :: "jsval \<Rightarrow> jsval \<Rightarrow> jsval" where
  "js_add a b =
     (if is_str a \<or> is_str b then JStr (ToString a @ ToString b)
      else num_add (ToNumber a) (ToNumber b))"

subsection \<open>Array operations\<close>

text \<open>\<^verbatim>\<open>arr[i]\<close>: \<^verbatim>\<open>undefined\<close> (here \<open>None\<close>) when the index is not an index of the array.\<close>

definition js_index :: "'a list \<Rightarrow> int \<Rightarrow> 'a option" where
  "js_index xs i = (if 0 \<le> i \<and> i < int (length xs) then Some (xs ! nat i) else None)"

text \<open>
  \<^verbatim>\<open>arr.splice(start, 1)\<close>: a negative start counts from the end of the array, and the
  start is clamped to the array; one element is removed when there is one at the start.
\<close>

definition splice1 :: "int \<Rightarrow> 'a list \<Rightarrow> 'a list" where
  "splice1 start xs =
     (let len = int (length xs);
          actualStart = (if start < 0 then max (len + start) 0 else min start len);
          actualDeleteCount = min 1 (len - actualStart)
      in take (nat actualStart) xs @ drop (nat (actualStart + actualDeleteCount)) xs)"

text \<open>\<^verbatim>\<open>Object.assign({}, src)\<close>: a fresh object with the properties of \<open>src\<close>; none when
  \<open>src\<close> is \<^verbatim>\<open>undefined\<close>.\<close>

definition Object_assign_empty :: "row option \<Rightarrow> row" where
  "Object_assign_empty src = (case src of None \<Rightarrow> Map.empty | Some r \<Rightarrow> r)"

section \<open>Refine.applySingleEdit\<close>

text \<open>
  The two search loops of \<^verbatim>\<open>applySingleEdit\<close>:
  \<^verbatim>\<open>for(var i = 0; i < newHist.length; i ++) if(newHist[i][col] == v) { idx = i; break; }\<close>
  with \<open>idx\<close> initially \<open>-1\<close>. The third argument is the loop counter. \<open>rowHas\<close> is
  the test of the loop, \<^verbatim>\<open>row[col] == v\<close>.
\<close>

abbreviation rowHas :: "(string \<Rightarrow> jsval) \<Rightarrow> string \<Rightarrow> jsval \<Rightarrow> row \<Rightarrow> bool" where
  "rowHas tn col v r \<equiv> loose_eq tn (getProp r col) v"

fun findRow :: "(string \<Rightarrow> jsval) \<Rightarrow> string \<Rightarrow> jsval \<Rightarrow> row list \<Rightarrow> int \<Rightarrow> int" where
  "findRow tn col v [] i = - 1"
| "findRow tn col v (r # rs) i =
     (if rowHas tn col v r then i else findRow tn col v rs (i + 1))"

definition applySingleEdit :: "(string \<Rightarrow> jsval) \<Rightarrow> row list \<Rightarrow> edit \<Rightarrow> row list" where
  "applySingleEdit tn hist e =
     (let newHist = hist;
          fromIdx = findRow tn (column e) (fromVal e) newHist 0;
          fromEntry = Object_assign_empty (js_index newHist fromIdx);
          newHist1 = splice1 fromIdx newHist;
          toIdx = findRow tn (column e) (toVal e) newHist1 0
      in if toIdx = - 1
         then
           (let newEntry = Map.empty(column e \<mapsto> toVal e);
                newEntry1 = newEntry(''count'' \<mapsto> getProp fromEntry ''count'')
            in newEntry1 # newHist1)
         else
           (let toEntry = Object_assign_empty (js_index newHist1 toIdx);
                newHist2 = splice1 toIdx newHist1;
                toEntry1 = toEntry(''count'' \<mapsto> js_add (getProp toEntry ''count'') (getProp fromEntry ''count''))
            in toEntry1 # newHist2))"

subsection \<open>The edit as the specification words it\<close>

text \<open>
  Steps 1 and 2 of the specification: find the first row whose column value equals
  \<^verbatim>\<open>fromVal\<close> and remove it; find the first remaining row whose column value equals
  \<^verbatim>\<open>toVal\<close>; when there is none put a new row with the removed row's count at the
  front, otherwise remove that row as well and put it at the front with the counts added.
  An edit whose \<^verbatim>\<open>fromVal\<close> no row has is skipped.
\<close>

fun removeFirst :: "('a \<Rightarrow> bool) \<Rightarrow> 'a list \<Rightarrow> 'a list" where
  "removeFirst P [] = []"
| "removeFirst P (x # xs) = (if P x then xs else x # removeFirst P xs)"

definition firstMatchEdit :: "(string \<Rightarrow> jsval) \<Rightarrow> row list \<Rightarrow> edit \<Rightarrow> row list" where
  "firstMatchEdit tn hist e =
     (case List.find (rowHas tn (column e) (fromVal e)) hist of
        None \<Rightarrow> hist
      | Some fromRow \<Rightarrow>
          (let remaining = removeFirst (rowHas tn (column e) (fromVal e)) hist
           in case List.find (rowHas tn (column e) (toVal e)) remaining of
                None \<Rightarrow> [column e \<mapsto> toVal e, ''count'' \<mapsto> getProp fromRow ''count''] # remaining
              | Some toRow \<Rightarrow>
                  toRow(''count'' \<mapsto> js_add (getProp toRow ''count'') (getProp fromRow ''count''))
                  # removeFirst (rowHas tn (column e) (toVal e)) remaining))"

subsection \<open>Predicates on histograms\<close>

text \<open>The values of a column are pairwise distinct for the comparison the code makes,
  \<^verbatim>\<open>==\<close>: no row's value equals the value of a later row.\<close>

fun distinctVals :: "(string \<Rightarrow> jsval) \<Rightarrow> string \<Rightarrow> row list \<Rightarrow> bool" where
  "distinctVals tn col [] = True"
| "distinctVals tn col (r # rs) =
     ((\<forall>r' \<in> set rs. \<not> loose_eq tn (getProp r col) (getProp r' col)) \<and> distinctVals tn col rs)"

text \<open>The count of a row when it is a number, and the total over a histogram.\<close>

definition isNum :: "jsval \<Rightarrow> bool" where
  "isNum v = (case v of JNum _ \<Rightarrow> True | _ \<Rightarrow> False)"

definition countOf :: "row \<Rightarrow> int" where
  "countOf r = (case getProp r ''count'' of JNum n \<Rightarrow> n | _ \<Rightarrow> 0)"

definition totalCount :: "row list \<Rightarrow> int" where
  "totalCount hist = sum_list (map countOf hist)"

text \<open>A string-to-number conversion for inputs none of whose strings is a numeric literal.\<close>

definition tnNaN :: "string \<Rightarrow> jsval" where
  "tnNaN s = JNaN"

section \<open>Refine.loadHistogram\<close>

text \<open>The component's state, the column descriptions it hands to the grid, and the
  answer of \<^verbatim>\<open>api.histogram\<close>.\<close>

record grid_column =
  key :: string
  name :: string
  editable :: bool

record refine_state =
  histogramLoaded :: bool
  histogramData :: "row list"
  histogramNumRows :: nat
  histogramColumns :: "grid_column list"
  edits :: "edit list"

record histogram =
  rows :: "row list"
  columns :: "string list"

text \<open>
  The loop of \<^verbatim>\<open>loadHistogram\<close> over \<^verbatim>\<open>this.state.edits\<close>, from index 0 upwards:
  \<^verbatim>\<open>if(edits[i].column == selectedColumn) editedHistogram = applySingleEdit(editedHistogram, edits[i])\<close>.
  Both operands of this \<^verbatim>\<open>==\<close> are strings.
\<close>

fun applyRelevantEdits ::
  "(string \<Rightarrow> jsval) \<Rightarrow> string \<Rightarrow> edit list \<Rightarrow> row list \<Rightarrow> row list" where
  "applyRelevantEdits tn selectedColumn [] editedHistogram = editedHistogram"
| "applyRelevantEdits tn selectedColumn (e # es) editedHistogram =
     applyRelevantEdits tn selectedColumn es
       (if column e = selectedColumn then applySingleEdit tn editedHistogram e
        else editedHistogram)"

text \<open>
  The callback that \<^verbatim>\<open>loadHistogram\<close> runs when the request for the histogram is
  answered: the next state from the current state, the \<^verbatim>\<open>selectedColumn\<close> prop and the
  answer.
\<close>

definition loadHistogram ::
  "(string \<Rightarrow> jsval) \<Rightarrow> string \<Rightarrow> refine_state \<Rightarrow> histogram \<Rightarrow> refine_state" where
  "loadHistogram tn selectedColumn state hist =
     (let nextState = state;
          editedHistogram = applyRelevantEdits tn selectedColumn (edits state) (rows hist)
      in nextState\<lparr>
           histogramData := editedHistogram,
           histogramNumRows := length editedHistogram,
           histogramLoaded := True,
           histogramColumns :=
             map (\<lambda>cname. \<lparr>key = cname, name = cname, editable = \<not> (cname = ''count'')\<rparr>)
               (columns hist)\<rparr>)"

section \<open>applySingleEdit on a store\<close>

text \<open>
  Arrays and objects are references, and \<^verbatim>\<open>splice\<close>, \<^verbatim>\<open>unshift\<close> and the assignment to a
  property update them in place. To say what \<^verbatim>\<open>applySingleEdit\<close> leaves alone, the
  function is modelled a second time on an explicit store: objects and arrays live at
  addresses, an array holds the addresses of its rows, and \<open>nextAddr\<close> is the first
  address not yet in use.
\<close>

type_synonym addr = nat

record store =
  objs :: "addr \<Rightarrow> row"
  arrs :: "addr \<Rightarrow> addr list"
  nextAddr :: addr

text \<open>A new object (\<^verbatim>\<open>{}\<close>, \<^verbatim>\<open>Object.assign({}, src)\<close>) and a new array (\<^verbatim>\<open>slice()\<close>, the
  result of \<^verbatim>\<open>splice\<close>).\<close>

definition newObject :: "store \<Rightarrow> row \<Rightarrow> addr \<times> store" where
  "newObject s r = (nextAddr s, s\<lparr>objs := (objs s)(nextAddr s := r), nextAddr := Suc (nextAddr s)\<rparr>)"

definition newArray :: "store \<Rightarrow> addr list \<Rightarrow> addr \<times> store" where
  "newArray s xs = (nextAddr s, s\<lparr>arrs := (arrs s)(nextAddr s := xs), nextAddr := Suc (nextAddr s)\<rparr>)"

text \<open>\<^verbatim>\<open>obj[k] = v\<close>.\<close>

definition setProp :: "store \<Rightarrow> addr \<Rightarrow> string \<Rightarrow> jsval \<Rightarrow> store" where
  "setProp s a k v = s\<lparr>objs := (objs s)(a := (objs s a)(k \<mapsto> v))\<rparr>"

text \<open>\<^verbatim>\<open>arr.splice(start, 1)\<close> in place; the array of the removed elements that it returns is
  allocated and dropped.\<close>

definition splice1_removed :: "int \<Rightarrow> 'a list \<Rightarrow> 'a list" where
  "splice1_removed start xs =
     (let len = int (length xs);
          actualStart = (if start < 0 then max (len + start) 0 else min start len);
          actualDeleteCount = min 1 (len - actualStart)
      in take (nat actualDeleteCount) (drop (nat actualStart) xs))"

definition spliceSt :: "store \<Rightarrow> addr \<Rightarrow> int \<Rightarrow> store" where
  "spliceSt s a start =
     (let (removed, s1) = newArray s (splice1_removed start (arrs s a))
      in s1\<lparr>arrs := (arrs s1)(a := splice1 start (arrs s1 a))\<rparr>)"

text \<open>\<^verbatim>\<open>arr.unshift(x)\<close>.\<close>

definition unshiftSt :: "store \<Rightarrow> addr \<Rightarrow> addr \<Rightarrow> store" where
  "unshiftSt s a x = s\<lparr>arrs := (arrs s)(a := x # arrs s a)\<rparr>"

text \<open>The rows an array refers to, as the search loops read them.\<close>

definition rowsOf :: "store \<Rightarrow> addr \<Rightarrow> row list" where
  "rowsOf s a = map (objs s) (arrs s a)"

text \<open>\<^verbatim>\<open>applySingleEdit(hist, edit)\<close>, statement by statement; the result is the address of
  the returned array and the store after the call.\<close>

definition applySingleEditSt ::
  "(string \<Rightarrow> jsval) \<Rightarrow> store \<Rightarrow> addr \<Rightarrow> edit \<Rightarrow> addr \<times> store" where
  "applySingleEditSt tn s hist e =
     (let (newHist, s1) = newArray s (arrs s hist);
          fromIdx = findRow tn (column e) (fromVal e) (rowsOf s1 newHist) 0;
          (fromEntry, s2) =
             newObject s1 (Object_assign_empty (map_option (objs s1) (js_index (arrs s1 newHist) fromIdx)));
          s3 = spliceSt s2 newHist fromIdx;
          toIdx = findRow tn (column e) (toVal e) (rowsOf s3 newHist) 0
      in if toIdx = - 1
         then
           (let (newEntry, s4) = newObject s3 Map.empty;
                s5 = setProp s4 newEntry (column e) (toVal e);
                s6 = setProp s5 newEntry ''count'' (getProp (objs s5 fromEntry) ''count'');
                s7 = unshiftSt s6 newHist newEntry
            in (newHist, s7))
         else
           (let (toEntry, s4) =
                  newObject s3 (Object_assign_empty (map_option (objs s3) (js_index (arrs s3 newHist) toIdx)));
                s5 = spliceSt s4 newHist toIdx;
                s6 = setProp s5 toEntry ''count''
                       (js_add (getProp (objs s5 toEntry) ''count'') (getProp (objs s5 fromEntry) ''count''));
                s7 = unshiftSt s6 newHist toEntry
            in (newHist, s7)))"

section \<open>QuotaExceeded: groupAutofetches\<close>

text \<open>
  An autofetch names its workflow, its tab and its step (\<^verbatim>\<open>wfModule\<close>). The fields of
  the three objects carry the name of their object here, \<^verbatim>\<open>workflow.id\<close> being
  \<open>workflow_id\<close>. Workflow ids are integers; a fetch interval is a number of seconds,
  modelled by a rational.
\<close>

record workflow =
  workflow_id :: int
  workflow_name :: string

record tab =
  tab_name :: string

record wfModule =
  wfModule_id :: int
  fetchInterval :: rat

record autofetch =
  workflow :: workflow
  tab :: tab
  wfModule :: wfModule

text \<open>
  The numbers that \<^verbatim>\<open>groupAutofetches\<close> computes with. Arithmetic on finite numbers is
  exact here (the rounding of doubles is not modelled, nor is the sign of zero); a
  division by zero gives an infinity, and \<open>\<infinity> - \<infinity>\<close> is \<open>NaN\<close>, as in the language.
\<close>

datatype jsnumber = Fin rat | PosInf | NegInf | NaN

text \<open>\<^verbatim>\<open>86400 / x\<close> for a finite \<open>x\<close>.\<close>

definition perDay :: "rat \<Rightarrow> jsnumber" where
  "perDay x = (if x = 0 then PosInf else Fin (86400 / x))"

fun js_plus :: "jsnumber \<Rightarrow> jsnumber \<Rightarrow> jsnumber" where
  "js_plus (Fin a) (Fin b) = Fin (a + b)"
| "js_plus NaN _ = NaN"
| "js_plus _ NaN = NaN"
| "js_plus PosInf NegInf = NaN"
| "js_plus NegInf PosInf = NaN"
| "js_plus PosInf _ = PosInf"
| "js_plus _ PosInf = PosInf"
| "js_plus NegInf _ = NegInf"
| "js_plus _ NegInf = NegInf"

fun js_negate :: "jsnumber \<Rightarrow> jsnumber" where
  "js_negate (Fin a) = Fin (- a)"
| "js_negate PosInf = NegInf"
| "js_negate NegInf = PosInf"
| "js_negate NaN = NaN"

definition js_minus :: "jsnumber \<Rightarrow> jsnumber \<Rightarrow> jsnumber" where
  "js_minus a b = js_plus a (js_negate b)"

text \<open>A number is falsy when it is zero or \<open>NaN\<close>: \<^verbatim>\<open>x || y\<close> is \<open>y\<close> then, and \<open>x\<close>
  otherwise.\<close>

fun truthy :: "jsnumber \<Rightarrow> bool" where
  "truthy (Fin a) = (a \<noteq> 0)"
| "truthy NaN = False"
| "truthy _ = True"

fun positive :: "jsnumber \<Rightarrow> bool" where
  "positive (Fin a) = (0 < a)"
| "positive PosInf = True"
| "positive _ = False"

text \<open>\<^verbatim>\<open>a <= b\<close> on numbers.\<close>

fun js_le :: "jsnumber \<Rightarrow> jsnumber \<Rightarrow> bool" where
  "js_le NaN _ = False"
| "js_le _ NaN = False"
| "js_le (Fin a) (Fin b) = (a \<le> b)"
| "js_le NegInf _ = True"
| "js_le _ PosInf = True"
| "js_le _ _ = False"

text \<open>A group, \<^verbatim>\<open>{ workflow, nFetchesPerDay, autofetches }\<close>.\<close>

record autofetchGroup =
  group_workflow :: workflow
  nFetchesPerDay :: jsnumber
  group_autofetches :: "autofetch list"

text \<open>
  The object \<^verbatim>\<open>groups\<close> is a list of keys with their groups, in the order in which the
  keys were added. Its keys are the strings \<^verbatim>\<open>String(autofetch.workflow.id)\<close>; a
  workflow id stands for its own string here, two ids having the same string only when
  they are equal. The body of the loop: add an empty group when the key is new, then add
  the autofetch to the group of its key.
\<close>

definition groupStep ::
  "(int \<times> autofetchGroup) list \<Rightarrow> autofetch \<Rightarrow> (int \<times> autofetchGroup) list" where
  "groupStep groups a =
     (let groupId = workflow_id (workflow a);
          groups1 =
            (if groupId \<in> set (map fst groups) then groups
             else groups @
               [(groupId, \<lparr>group_workflow = workflow a, nFetchesPerDay = Fin 0,
                          group_autofetches = []\<rparr>)])
      in map (\<lambda>(k, g).
                if k = groupId
                then (k, g\<lparr>nFetchesPerDay :=
                             js_plus (nFetchesPerDay g) (perDay (fetchInterval (wfModule a))),
                           group_autofetches := group_autofetches g @ [a]\<rparr>)
                else (k, g))
           groups1)"

text \<open>
  \<^verbatim>\<open>Object.values(groups)\<close>: the values of the keys that are array indices (the strings
  of the integers from 0 to \<open>2^32 - 2\<close>) in ascending order of the index, then the values
  of the other keys in the order in which they were added.
\<close>

definition isArrayIndex :: "int \<Rightarrow> bool" where
  "isArrayIndex k = (0 \<le> k \<and> k < 4294967295)"

definition Object_values :: "(int \<times> 'a) list \<Rightarrow> 'a list" where
  "Object_values groups =
     map snd (sort_key fst (filter (\<lambda>p. isArrayIndex (fst p)) groups))
     @ map snd (filter (\<lambda>p. \<not> isArrayIndex (fst p)) groups)"

text \<open>
  The comparison function handed to \<^verbatim>\<open>sort\<close>:
  \<^verbatim>\<open>b.nFetchesPerDay - a.nFetchesPerDay || a.workflow.name.localeCompare(b.workflow.name)\<close>.
  \<^verbatim>\<open>localeCompare\<close> is the collation of the host, the parameter \<open>lc\<close> of the model.
\<close>

definition compareGroups ::
  "(string \<Rightarrow> string \<Rightarrow> int) \<Rightarrow> autofetchGroup \<Rightarrow> autofetchGroup \<Rightarrow> jsnumber" where
  "compareGroups lc a b =
     (let d = js_minus (nFetchesPerDay b) (nFetchesPerDay a)
      in if truthy d then d
         else Fin (of_int (lc (workflow_name (group_workflow a)) (workflow_name (group_workflow b)))))"

text \<open>
  \<^verbatim>\<open>Array.prototype.sort\<close> with a comparison function, as a stable insertion sort: \<open>a\<close>
  goes after \<open>b\<close> only when the comparison of \<open>a\<close> with \<open>b\<close> is positive. (The language
  fixes the result of a stable sort whenever the comparison function is consistent.)
\<close>

fun insertSorted :: "('a \<Rightarrow> 'a \<Rightarrow> jsnumber) \<Rightarrow> 'a \<Rightarrow> 'a list \<Rightarrow> 'a list" where
  "insertSorted cmp x [] = [x]"
| "insertSorted cmp x (y # ys) =
     (if positive (cmp x y) then y # insertSorted cmp x ys else x # y # ys)"

fun jsSort :: "('a \<Rightarrow> 'a \<Rightarrow> jsnumber) \<Rightarrow> 'a list \<Rightarrow> 'a list" where
  "jsSort cmp [] = []"
| "jsSort cmp (x # xs) = insertSorted cmp x (jsSort cmp xs)"

definition groupAutofetches ::
  "(string \<Rightarrow> string \<Rightarrow> int) \<Rightarrow> autofetch list \<Rightarrow> autofetchGroup list" where
  "groupAutofetches lc autofetches =
     jsSort (compareGroups lc) (Object_values (foldl groupStep [] autofetches))"

text \<open>What the claims say of a group: its key, and the sum of its autofetches' rates.\<close>

definition groupId :: "autofetchGroup \<Rightarrow> int" where
  "groupId g = workflow_id (group_workflow g)"

definition sumPerDay :: "autofetch list \<Rightarrow> jsnumber" where
  "sumPerDay as = foldl js_plus (Fin 0) (map (\<lambda>a. perDay (fetchInterval (wfModule a))) as)"

text \<open>A collation is consistent when any two strings are comparable and the comparison
  is transitive.\<close>

definition consistentCompare :: "(string \<Rightarrow> string \<Rightarrow> int) \<Rightarrow> bool" where
  "consistentCompare lc =
     ((\<forall>x y. lc x y \<le> 0 \<or> lc y x \<le> 0) \<and>
      (\<forall>x y z. lc x y \<le> 0 \<and> lc y z \<le> 0 \<longrightarrow> lc x z \<le> 0))"

text \<open>The comparison of strings by their characters, a consistent collation.\<close>

definition compareChars :: "string \<Rightarrow> string \<Rightarrow> int" where
  "compareChars x y = (if x < y then - 1 else if x = y then 0 else 1)"

section \<open>Refine: the handlers that save the edit log\<close>

text \<open>
  \<^verbatim>\<open>JSON.stringify\<close> and \<^verbatim>\<open>JSON.parse\<close> belong to the host. A JSON text is modelled by
  the JSON value it denotes (its syntax tree: the members of an object in the order of the
  text), so white space and the escapes of strings are not modelled.
\<close>

datatype json =
    JsonNull
  | JsonBool bool
  | JsonNum int
  | JsonStr string
  | JsonArr "json list"
  | JsonObj "(string \<times> json) list"

text \<open>
  \<^verbatim>\<open>JSON.stringify\<close> of the edit log, an array of \<^verbatim>\<open>{column, fromVal, toVal, timestamp}\<close>:
  a property whose value is \<^verbatim>\<open>undefined\<close> is left out, and \<open>NaN\<close> is written \<^verbatim>\<open>null\<close>.
\<close>

definition jsonOfVal :: "jsval \<Rightarrow> json option" where
  "jsonOfVal v =
     (case v of
        JUndefined \<Rightarrow> None
      | JNull \<Rightarrow> Some JsonNull
      | JBool b \<Rightarrow> Some (JsonBool b)
      | JNum n \<Rightarrow> Some (JsonNum n)
      | JNaN \<Rightarrow> Some JsonNull
      | JStr s \<Rightarrow> Some (JsonStr s))"

definition jsonMember :: "string \<Rightarrow> jsval \<Rightarrow> (string \<times> json) list" where
  "jsonMember k v = (case jsonOfVal v of None \<Rightarrow> [] | Some j \<Rightarrow> [(k, j)])"

definition jsonOfEdit :: "edit \<Rightarrow> json" where
  "jsonOfEdit e =
     JsonObj ([(''column'', JsonStr (column e))]
              @ jsonMember ''fromVal'' (fromVal e)
              @ jsonMember ''toVal'' (toVal e)
              @ [(''timestamp'', JsonNum (timestamp e))])"

definition JSON_stringify :: "edit list \<Rightarrow> json" where
  "JSON_stringify es = JsonArr (map jsonOfEdit es)"

text \<open>
  \<^verbatim>\<open>JSON.parse\<close> of a text, read as an edit log: an array of objects with a string as
  \<^verbatim>\<open>column\<close> and a number as \<^verbatim>\<open>timestamp\<close>; \<^verbatim>\<open>fromVal\<close> and \<^verbatim>\<open>toVal\<close> are
  \<^verbatim>\<open>undefined\<close> when the object has no such member. Of a member written twice the last
  one counts. A text that is not such a log is outside the model (\<open>None\<close>).
\<close>

definition jsonLookup :: "(string \<times> json) list \<Rightarrow> string \<Rightarrow> json option" where
  "jsonLookup members k = map_of (rev members) k"

definition valOfJson :: "json option \<Rightarrow> jsval option" where
  "valOfJson j =
     (case j of
        None \<Rightarrow> Some JUndefined
      | Some JsonNull \<Rightarrow> Some JNull
      | Some (JsonBool b) \<Rightarrow> Some (JBool b)
      | Some (JsonNum n) \<Rightarrow> Some (JNum n)
      | Some (JsonStr s) \<Rightarrow> Some (JStr s)
      | Some _ \<Rightarrow> None)"

definition editOfJson :: "json \<Rightarrow> edit option" where
  "editOfJson j =
     (case j of
        JsonObj members \<Rightarrow>
          (case (jsonLookup members ''column'', jsonLookup members ''timestamp'',
                 valOfJson (jsonLookup members ''fromVal''),
                 valOfJson (jsonLookup members ''toVal'')) of
             (Some (JsonStr c), Some (JsonNum t), Some f, Some v) \<Rightarrow>
               Some \<lparr>column = c, fromVal = f, toVal = v, timestamp = t\<rparr>
           | _ \<Rightarrow> None)
      | _ \<Rightarrow> None)"

definition JSON_parse :: "json \<Rightarrow> edit list option" where
  "JSON_parse j = (case j of JsonArr items \<Rightarrow> those (map editOfJson items) | _ \<Rightarrow> None)"

text \<open>
  The argument of \<^verbatim>\<open>onGridRowsUpdated\<close> and the argument of \<^verbatim>\<open>onValueChange\<close>
  (\<^verbatim>\<open>changeData.fromVal\<close> is \<open>change_fromVal\<close> here).
\<close>

record gridUpdate =
  cellKey :: string
  fromRowData :: row
  updated :: row

record changeData =
  change_fromVal :: jsval
  change_toVal :: jsval

text \<open>
  The two handlers. The result is the argument of the call of \<^verbatim>\<open>this.props.saveEdits\<close>, or
  \<open>None\<close> when the handler returns without the call. \<open>now\<close> is the value of
  \<^verbatim>\<open>Date.now()\<close>.
\<close>

definition handleGridRowsUpdated ::
  "(string \<Rightarrow> jsval) \<Rightarrow> int \<Rightarrow> refine_state \<Rightarrow> gridUpdate \<Rightarrow> json option" where
  "handleGridRowsUpdated tn now state data =
     (let changeCol = cellKey data
      in if changeCol = ''count'' then None
         else
           (let fromVal = getProp (fromRowData data) changeCol;
                toVal = getProp (updated data) changeCol
            in if loose_eq tn fromVal toVal then None
               else
                 (let nextEdits = edits state;
                      nextEdits1 = nextEdits @
                        [\<lparr>column = changeCol, fromVal = fromVal, toVal = toVal, timestamp = now\<rparr>]
                  in Some (JSON_stringify nextEdits1))))"

definition handleValueChange ::
  "int \<Rightarrow> string \<Rightarrow> refine_state \<Rightarrow> changeData \<Rightarrow> json option" where
  "handleValueChange now selectedColumn state change =
     (let nextEdits = edits state;
          nextEdits1 = nextEdits @
            [\<lparr>column = selectedColumn, fromVal = change_fromVal change,
              toVal = change_toVal change, timestamp = now\<rparr>]
      in Some (JSON_stringify nextEdits1))"

text \<open>A value as a JSON text carries it: \<open>NaN\<close> comes back as \<^verbatim>\<open>null\<close>, every other value as
  itself (\<^verbatim>\<open>undefined\<close> as a missing member, which reads as \<^verbatim>\<open>undefined\<close>).\<close>

definition viaJson :: "jsval \<Rightarrow> jsval" where
  "viaJson v = (case v of JNaN \<Rightarrow> JNull | _ \<Rightarrow> v)"

section \<open>Properties of applySingleEdit\<close>

subsection \<open>The search loops and the array operations\<close>

lemma findRow_none:
  "\<forall>r\<in>set rs. \<not> rowHas tn col v r \<Longrightarrow> findRow tn col v rs i = - 1"
  by (induction rs arbitrary: i) auto

lemma findRow_first:
  "\<forall>r\<in>set pre. \<not> rowHas tn col v r \<Longrightarrow> rowHas tn col v x \<Longrightarrow>
   findRow tn col v (pre @ x # post) i = i + int (length pre)"
  by (induction pre arbitrary: i) auto

lemma splice1_at: "splice1 (int (length pre)) (pre @ x # post) = pre @ post"
proof -
  have "nat (int (length pre) + 1) = Suc (length pre)" by simp
  then show ?thesis by (simp add: splice1_def Let_def)
qed

lemma js_index_at: "js_index (pre @ x # post) (int (length pre)) = Some x"
  by (simp add: js_index_def)

lemma splice1_minus1: "splice1 (- 1) xs = butlast xs"
  by (cases xs rule: rev_cases) (simp_all add: splice1_def Let_def)

lemma js_index_minus1: "js_index xs (- 1) = None"
  by (simp add: js_index_def)

lemma applySingleEdit_new_row:
  assumes "\<forall>r\<in>set pre. \<not> rowHas tn (column e) (fromVal e) r"
    and "rowHas tn (column e) (fromVal e) f"
    and "\<forall>r\<in>set (pre @ post). \<not> rowHas tn (column e) (toVal e) r"
  shows "applySingleEdit tn (pre @ f # post) e =
           [column e \<mapsto> toVal e, ''count'' \<mapsto> getProp f ''count''] # pre @ post"
proof -
  have 1: "findRow tn (column e) (fromVal e) (pre @ f # post) 0 = int (length pre)"
    using findRow_first [OF assms(1,2), of post 0] by simp
  have 2: "findRow tn (column e) (toVal e) (pre @ post) 0 = - 1"
    using findRow_none [OF assms(3)] .
  show ?thesis
    unfolding applySingleEdit_def Let_def 1 js_index_at splice1_at 2
    by (simp add: Object_assign_empty_def)
qed

lemma applySingleEdit_merged_row:
  assumes "\<forall>r\<in>set pre. \<not> rowHas tn (column e) (fromVal e) r"
    and "rowHas tn (column e) (fromVal e) f"
    and "pre @ post = pre' @ t # post'"
    and "\<forall>r\<in>set pre'. \<not> rowHas tn (column e) (toVal e) r"
    and "rowHas tn (column e) (toVal e) t"
  shows "applySingleEdit tn (pre @ f # post) e =
           t(''count'' \<mapsto> js_add (getProp t ''count'') (getProp f ''count'')) # pre' @ post'"
proof -
  have 1: "findRow tn (column e) (fromVal e) (pre @ f # post) 0 = int (length pre)"
    using findRow_first [OF assms(1,2), of post 0] by simp
  have 2: "findRow tn (column e) (toVal e) (pre' @ t # post') 0 = int (length pre')"
    using findRow_first [OF assms(4,5), of post' 0] by simp
  show ?thesis
    unfolding applySingleEdit_def Let_def 1 js_index_at splice1_at assms(3) 2
    by (simp add: Object_assign_empty_def)
qed

text \<open>What the code does when no row has \<^verbatim>\<open>fromVal\<close>: the first search ends with the
  index \<open>-1\<close>, \<^verbatim>\<open>newHist[-1]\<close> is \<^verbatim>\<open>undefined\<close>, and \<^verbatim>\<open>splice(-1, 1)\<close> removes the last
  row.\<close>

lemma applySingleEdit_absent:
  assumes "\<forall>r\<in>set hist. \<not> rowHas tn (column e) (fromVal e) r"
  shows "applySingleEdit tn hist e =
     (let rest = butlast hist; toIdx = findRow tn (column e) (toVal e) rest 0
      in if toIdx = - 1 then [column e \<mapsto> toVal e, ''count'' \<mapsto> JUndefined] # rest
         else (Object_assign_empty (js_index rest toIdx))
                (''count'' \<mapsto>
                   js_add (getProp (Object_assign_empty (js_index rest toIdx)) ''count'') JUndefined)
              # splice1 toIdx rest)"
  unfolding applySingleEdit_def Let_def findRow_none [OF assms] js_index_minus1 splice1_minus1
  by (simp add: Object_assign_empty_def getProp_def)

lemma find_first_row:
  "\<forall>r\<in>set pre. \<not> P r \<Longrightarrow> P x \<Longrightarrow> List.find P (pre @ x # post) = Some x"
  by (induction pre) auto

lemma removeFirst_first:
  "\<forall>r\<in>set pre. \<not> P r \<Longrightarrow> P x \<Longrightarrow> removeFirst P (pre @ x # post) = pre @ post"
  by (induction pre) auto

lemma find_no_row: "\<forall>r\<in>set xs. \<not> P r \<Longrightarrow> List.find P xs = None"
  by (induction xs) auto

lemma firstMatchEdit_new_row:
  assumes "\<forall>r\<in>set pre. \<not> rowHas tn (column e) (fromVal e) r"
    and "rowHas tn (column e) (fromVal e) f"
    and "\<forall>r\<in>set (pre @ post). \<not> rowHas tn (column e) (toVal e) r"
  shows "firstMatchEdit tn (pre @ f # post) e =
           [column e \<mapsto> toVal e, ''count'' \<mapsto> getProp f ''count''] # pre @ post"
  unfolding firstMatchEdit_def Let_def
    find_first_row [of pre "rowHas tn (column e) (fromVal e)", OF assms(1,2)]
    removeFirst_first [of pre "rowHas tn (column e) (fromVal e)", OF assms(1,2)]
    find_no_row [of "pre @ post" "rowHas tn (column e) (toVal e)", OF assms(3)]
  by simp

lemma firstMatchEdit_merged_row:
  assumes "\<forall>r\<in>set pre. \<not> rowHas tn (column e) (fromVal e) r"
    and "rowHas tn (column e) (fromVal e) f"
    and "pre @ post = pre' @ t # post'"
    and "\<forall>r\<in>set pre'. \<not> rowHas tn (column e) (toVal e) r"
    and "rowHas tn (column e) (toVal e) t"
  shows "firstMatchEdit tn (pre @ f # post) e =
           t(''count'' \<mapsto> js_add (getProp t ''count'') (getProp f ''count'')) # pre' @ post'"
  unfolding firstMatchEdit_def Let_def
    find_first_row [of pre "rowHas tn (column e) (fromVal e)", OF assms(1,2)]
    removeFirst_first [of pre "rowHas tn (column e) (fromVal e)", OF assms(1,2)]
    assms(3)
    find_first_row [of pre' "rowHas tn (column e) (toVal e)", OF assms(4,5)]
    removeFirst_first [of pre' "rowHas tn (column e) (toVal e)", OF assms(4,5)]
  by simp

subsection \<open>Facts about \<^verbatim>\<open>==\<close>, \<^verbatim>\<open>+\<close> and the histogram predicates\<close>

lemma js_add_JNum: "js_add (JNum a) (JNum b) = JNum (a + b)"
  by (simp add: js_add_def is_str_def ToNumber_def)

lemma num_eq_sym: "num_eq x y = num_eq y x"
  by (cases x; cases y) auto

lemma loose_eq0_sym: "loose_eq0 tn x y = loose_eq0 tn y x"
  by (cases x; cases y) (auto simp: num_eq_sym [of "tn s" for s])

lemma loose_eq_sym: "loose_eq tn x y = loose_eq tn y x"
  unfolding loose_eq_def by (rule loose_eq0_sym)

lemma getProp_count_upd: "getProp (r(''count'' \<mapsto> v)) ''count'' = v"
  by (simp add: getProp_def)

lemma getProp_other_upd: "col \<noteq> ''count'' \<Longrightarrow> getProp (r(''count'' \<mapsto> v)) col = getProp r col"
  by (simp add: getProp_def)

lemma distinctVals_append:
  "distinctVals tn col (xs @ ys) =
     (distinctVals tn col xs \<and> distinctVals tn col ys \<and>
      (\<forall>x\<in>set xs. \<forall>y\<in>set ys. \<not> loose_eq tn (getProp x col) (getProp y col)))"
  by (induction xs) auto

lemma distinctVals_remove:
  "distinctVals tn col (pre @ x # post) \<Longrightarrow> distinctVals tn col (pre @ post)"
  by (auto simp: distinctVals_append)

lemma distinctVals_to_front:
  assumes "distinctVals tn col (pre @ x # post)" and "getProp y col = getProp x col"
  shows "distinctVals tn col (y # pre @ post)"
proof -
  have "\<forall>r\<in>set pre. \<not> loose_eq tn (getProp x col) (getProp r col)"
    using assms(1) by (auto simp: distinctVals_append loose_eq_sym [of tn "getProp x col"])
  moreover have "\<forall>r\<in>set post. \<not> loose_eq tn (getProp x col) (getProp r col)"
    using assms(1) by (auto simp: distinctVals_append)
  moreover have "distinctVals tn col (pre @ post)"
    using assms(1) by (rule distinctVals_remove)
  ultimately show ?thesis
    by (auto simp: assms(2))
qed

lemma totalCount_append: "totalCount (xs @ ys) = totalCount xs + totalCount ys"
  by (simp add: totalCount_def)

lemma totalCount_Cons: "totalCount (x # xs) = countOf x + totalCount xs"
  by (simp add: totalCount_def)

lemma isNum_countOf: "isNum (getProp r ''count'') \<Longrightarrow> getProp r ''count'' = JNum (countOf r)"
  by (cases "getProp r ''count''") (simp_all add: isNum_def countOf_def)

lemma first_row_split:
  assumes "\<exists>r\<in>set hist. P r"
  obtains pre f post where "hist = pre @ f # post" and "P f" and "\<forall>r\<in>set pre. \<not> P r"
  using split_list_first_prop [OF assms] by blast

text \<open>Distinctness of the values compared as such (and not by \<^verbatim>\<open>==\<close>) is preserved as
  well, for a \<^verbatim>\<open>toVal\<close> other than \<open>NaN\<close>, the one value that is not \<^verbatim>\<open>==\<close> to itself.\<close>

lemma loose_eq_refl: "v \<noteq> JNaN \<Longrightarrow> loose_eq tn v v"
  by (cases v) (simp_all add: loose_eq_def unbool_def)

lemma applySingleEdit_distinct_values:
  assumes "distinct (map (\<lambda>r. getProp r (column e)) hist)"
    and "\<exists>r\<in>set hist. rowHas tn (column e) (fromVal e) r"
    and "column e \<noteq> ''count''"
    and "toVal e \<noteq> JNaN"
  shows "distinct (map (\<lambda>r. getProp r (column e)) (applySingleEdit tn hist e))"
proof -
  from assms(2) obtain pre f post where
    h: "hist = pre @ f # post" and f: "rowHas tn (column e) (fromVal e) f"
    and pre: "\<forall>r\<in>set pre. \<not> rowHas tn (column e) (fromVal e) r"
    by (rule first_row_split)
  have rest: "distinct (map (\<lambda>r. getProp r (column e)) (pre @ post))"
    using assms(1) by (simp add: h)
  show ?thesis
  proof (cases "\<exists>r\<in>set (pre @ post). rowHas tn (column e) (toVal e) r")
    case True
    then obtain pre' t post' where
      r: "pre @ post = pre' @ t # post'" and t: "rowHas tn (column e) (toVal e) t"
      and pre': "\<forall>r\<in>set pre'. \<not> rowHas tn (column e) (toVal e) r"
      by (rule first_row_split)
    have "distinct (map (\<lambda>r. getProp r (column e)) (pre' @ t # post'))"
      using rest by (simp only: r)
    then have "distinct (map (\<lambda>r. getProp r (column e))
        (t(''count'' \<mapsto> js_add (getProp t ''count'') (getProp f ''count'')) # pre' @ post'))"
      using assms(3) by (auto simp: getProp_other_upd)
    then show ?thesis
      unfolding h applySingleEdit_merged_row [OF pre f r pre' t] .
  next
    case False
    then have no: "\<forall>r\<in>set (pre @ post). \<not> rowHas tn (column e) (toVal e) r" by blast
    have v: "getProp [column e \<mapsto> toVal e, ''count'' \<mapsto> getProp f ''count''] (column e) = toVal e"
      using assms(3) by (simp add: getProp_def)
    have ne: "getProp r (column e) \<noteq> toVal e" if "r \<in> set (pre @ post)" for r
      using no that loose_eq_refl [OF assms(4), of tn] by metis
    have "toVal e \<notin> set (map (\<lambda>r. getProp r (column e)) (pre @ post))"
    proof
      assume "toVal e \<in> set (map (\<lambda>r. getProp r (column e)) (pre @ post))"
      then obtain r where "r \<in> set (pre @ post)" and "toVal e = getProp r (column e)"
        by auto
      then show False using ne [of r] by simp
    qed
    then have "distinct (map (\<lambda>r. getProp r (column e))
        ([column e \<mapsto> toVal e, ''count'' \<mapsto> getProp f ''count''] # pre @ post))"
      using rest by (simp only: list.map distinct.simps v) simp
    then show ?thesis
      unfolding h applySingleEdit_new_row [OF pre f no] .
  qed
qed

section \<open>The claims about applySingleEdit\<close>

text \<open>
  Throughout, a row "has" a value when the code's test \<^verbatim>\<open>row[edit.column] == v\<close> succeeds
  (\<open>rowHas\<close>). The row the code takes as the from-row is the first row that has
  \<^verbatim>\<open>fromVal\<close>; a histogram is split accordingly as \<open>pre @ fromRow # post\<close>, where no
  row of \<open>pre\<close> has \<^verbatim>\<open>fromVal\<close>. The rows that remain are \<open>pre @ post\<close>, and the to-row
  is the first of them that has \<^verbatim>\<open>toVal\<close>.
\<close>







text \<open>
  Claim C3 says that an edit whose \<^verbatim>\<open>fromVal\<close> no row has leaves the histogram as it
  is. The code does not test the index \<open>-1\<close> of the first search (it does test the
  index of the second one): \<^verbatim>\<open>splice(-1, 1)\<close> removes the last row, and a row for
  \<^verbatim>\<open>toVal\<close> with the count \<^verbatim>\<open>undefined\<close> is put at the front (in general see
  \<open>applySingleEdit_absent\<close>). Here on the histogram a:1, b:2 and the edit of z to y.
\<close>

theorem applySingleEdit_absent_fromVal:
  "applySingleEdit tnNaN
     [[''v'' \<mapsto> JStr ''a'', ''count'' \<mapsto> JNum 1], [''v'' \<mapsto> JStr ''b'', ''count'' \<mapsto> JNum 2]]
     \<lparr>column = ''v'', fromVal = JStr ''z'', toVal = JStr ''y'', timestamp = 0\<rparr>
   = [[''v'' \<mapsto> JStr ''y'', ''count'' \<mapsto> JUndefined], [''v'' \<mapsto> JStr ''a'', ''count'' \<mapsto> JNum 1]]"
  by (simp add: applySingleEdit_def Let_def splice1_def js_index_def Object_assign_empty_def
      getProp_def loose_eq_def unbool_def)

text \<open>
  Claim C4: \<^verbatim>\<open>applySingleEdit\<close> has first-match semantics. Whenever some row has
  \<^verbatim>\<open>fromVal\<close> (one row or several), the result is the one of \<open>firstMatchEdit\<close>, which
  removes the first row that has \<^verbatim>\<open>fromVal\<close> and no other, and then looks up the first
  of the remaining rows that has \<^verbatim>\<open>toVal\<close>.
\<close>

theorem applySingleEdit_first_match:
  assumes "\<exists>r\<in>set hist. rowHas tn (column e) (fromVal e) r"
  shows "applySingleEdit tn hist e = firstMatchEdit tn hist e"
proof -
  from assms obtain pre f post where
    h: "hist = pre @ f # post" and f: "rowHas tn (column e) (fromVal e) f"
    and pre: "\<forall>r\<in>set pre. \<not> rowHas tn (column e) (fromVal e) r"
    using split_list_first_prop [of hist "rowHas tn (column e) (fromVal e)"] by blast
  show ?thesis
  proof (cases "\<exists>r\<in>set (pre @ post). rowHas tn (column e) (toVal e) r")
    case True
    then obtain pre' t post' where
      r: "pre @ post = pre' @ t # post'" and t: "rowHas tn (column e) (toVal e) t"
      and pre': "\<forall>r\<in>set pre'. \<not> rowHas tn (column e) (toVal e) r"
      using split_list_first_prop [of "pre @ post" "rowHas tn (column e) (toVal e)"] by blast
    show ?thesis
      unfolding h applySingleEdit_merged_row [OF pre f r pre' t]
        firstMatchEdit_merged_row [OF pre f r pre' t] ..
  next
    case False
    then have no: "\<forall>r\<in>set (pre @ post). \<not> rowHas tn (column e) (toVal e) r" by blast
    show ?thesis
      unfolding h applySingleEdit_new_row [OF pre f no] firstMatchEdit_new_row [OF pre f no] ..
  qed
qed

text \<open>The theorem at the histogram a:1, b:2, a:4, b:8 and the edit of a to b: the rows
  a:4 and b:8 stay.\<close>

theorem applySingleEdit_first_match_witness:
  "(\<exists>r\<in>set [[''v'' \<mapsto> JStr ''a'', ''count'' \<mapsto> JNum 1], [''v'' \<mapsto> JStr ''b'', ''count'' \<mapsto> JNum 2],
         [''v'' \<mapsto> JStr ''a'', ''count'' \<mapsto> JNum 4], [''v'' \<mapsto> JStr ''b'', ''count'' \<mapsto> JNum 8]].
      rowHas tnNaN ''v'' (JStr ''a'') r)
   \<and> applySingleEdit tnNaN
        [[''v'' \<mapsto> JStr ''a'', ''count'' \<mapsto> JNum 1], [''v'' \<mapsto> JStr ''b'', ''count'' \<mapsto> JNum 2],
         [''v'' \<mapsto> JStr ''a'', ''count'' \<mapsto> JNum 4], [''v'' \<mapsto> JStr ''b'', ''count'' \<mapsto> JNum 8]]
        \<lparr>column = ''v'', fromVal = JStr ''a'', toVal = JStr ''b'', timestamp = 0\<rparr>
      = firstMatchEdit tnNaN
        [[''v'' \<mapsto> JStr ''a'', ''count'' \<mapsto> JNum 1], [''v'' \<mapsto> JStr ''b'', ''count'' \<mapsto> JNum 2],
         [''v'' \<mapsto> JStr ''a'', ''count'' \<mapsto> JNum 4], [''v'' \<mapsto> JStr ''b'', ''count'' \<mapsto> JNum 8]]
        \<lparr>column = ''v'', fromVal = JStr ''a'', toVal = JStr ''b'', timestamp = 0\<rparr>
   \<and> firstMatchEdit tnNaN
        [[''v'' \<mapsto> JStr ''a'', ''count'' \<mapsto> JNum 1], [''v'' \<mapsto> JStr ''b'', ''count'' \<mapsto> JNum 2],
         [''v'' \<mapsto> JStr ''a'', ''count'' \<mapsto> JNum 4], [''v'' \<mapsto> JStr ''b'', ''count'' \<mapsto> JNum 8]]
        \<lparr>column = ''v'', fromVal = JStr ''a'', toVal = JStr ''b'', timestamp = 0\<rparr>
      = [[''v'' \<mapsto> JStr ''b'', ''count'' \<mapsto> JNum 3],
         [''v'' \<mapsto> JStr ''a'', ''count'' \<mapsto> JNum 4], [''v'' \<mapsto> JStr ''b'', ''count'' \<mapsto> JNum 8]]"
proof -
  let ?e = "\<lparr>column = ''v'', fromVal = JStr ''a'', toVal = JStr ''b'', timestamp = 0\<rparr>"
  let ?h = "[[''v'' \<mapsto> JStr ''a'', ''count'' \<mapsto> JNum 1], [''v'' \<mapsto> JStr ''b'', ''count'' \<mapsto> JNum 2],
         [''v'' \<mapsto> JStr ''a'', ''count'' \<mapsto> JNum 4], [''v'' \<mapsto> JStr ''b'', ''count'' \<mapsto> JNum 8]]"
  have ex: "\<exists>r\<in>set ?h. rowHas tnNaN (column ?e) (fromVal ?e) r"
    by (simp add: loose_eq_def unbool_def getProp_def)
  have val: "firstMatchEdit tnNaN ?h ?e =
      [[''v'' \<mapsto> JStr ''b'', ''count'' \<mapsto> JNum 3],
       [''v'' \<mapsto> JStr ''a'', ''count'' \<mapsto> JNum 4], [''v'' \<mapsto> JStr ''b'', ''count'' \<mapsto> JNum 8]]"
    by (simp add: firstMatchEdit_def Let_def loose_eq_def unbool_def getProp_def js_add_JNum)
  from applySingleEdit_first_match [OF ex] ex val show ?thesis
    by simp
qed






section \<open>The claim about loadHistogram\<close>

lemma applyRelevantEdits_foldl:
  "applyRelevantEdits tn sel es h =
     foldl (applySingleEdit tn) h (filter (\<lambda>e. column e = sel) es)"
  by (induction es arbitrary: h) simp_all

text \<open>
  Claim C5, as it holds: the histogram that \<^verbatim>\<open>loadHistogram\<close> stores is the left fold of
  \<^verbatim>\<open>applySingleEdit\<close>, starting from the fetched rows, over those edits of the log whose
  column is the selected column, in log order. Edits of other columns are skipped.
\<close>

theorem loadHistogram_replays_relevant_edits:
  "histogramData (loadHistogram tn selectedColumn state hist) =
     foldl (applySingleEdit tn) (rows hist)
       (filter (\<lambda>e. column e = selectedColumn) (edits state))"
  by (simp add: loadHistogram_def Let_def applyRelevantEdits_foldl)

text \<open>
  Claim C5 as stated, with the fold over every edit of the log, fails on a log that holds
  an edit of another column: \<^verbatim>\<open>loadHistogram\<close> leaves the histogram a:1 as it is, while
  applying the edit (it is of column w, and no row has a column w) replaces the row.
\<close>

theorem loadHistogram_skips_other_columns:
  "histogramData
     (loadHistogram tnNaN ''v''
        \<lparr>histogramLoaded = False, histogramData = [], histogramNumRows = 0,
         histogramColumns = [],
         edits = [\<lparr>column = ''w'', fromVal = JStr ''a'', toVal = JStr ''b'', timestamp = 0\<rparr>]\<rparr>
        \<lparr>rows = [[''v'' \<mapsto> JStr ''a'', ''count'' \<mapsto> JNum 1]], columns = [''v'', ''count'']\<rparr>)
     = [[''v'' \<mapsto> JStr ''a'', ''count'' \<mapsto> JNum 1]]
   \<and> foldl (applySingleEdit tnNaN) [[''v'' \<mapsto> JStr ''a'', ''count'' \<mapsto> JNum 1]]
       [\<lparr>column = ''w'', fromVal = JStr ''a'', toVal = JStr ''b'', timestamp = 0\<rparr>]
     = [[''w'' \<mapsto> JStr ''b'', ''count'' \<mapsto> JUndefined]]
   \<and> [[''w'' \<mapsto> JStr ''b'', ''count'' \<mapsto> JUndefined]]
     \<noteq> [[''v'' \<mapsto> JStr ''a'', ''count'' \<mapsto> JNum 1]]"
proof -
  have "[''w'' \<mapsto> JStr ''b'', ''count'' \<mapsto> JUndefined] ''count'' \<noteq>
        [''v'' \<mapsto> JStr ''a'', ''count'' \<mapsto> JNum 1] ''count''"
    by simp
  then have "[''w'' \<mapsto> JStr ''b'', ''count'' \<mapsto> JUndefined] \<noteq>
        [''v'' \<mapsto> JStr ''a'', ''count'' \<mapsto> JNum 1]"
    by metis
  then show ?thesis
    by (simp add: loadHistogram_def Let_def applySingleEdit_def splice1_def js_index_def
        Object_assign_empty_def getProp_def loose_eq_def unbool_def)
qed

section \<open>Properties of applySingleEdit on a store\<close>


lemma splice1_map: "splice1 i (map f xs) = map f (splice1 i xs)"
  by (simp add: splice1_def Let_def take_map drop_map)

lemma js_index_map: "js_index (map f xs) i = map_option f (js_index xs i)"
  by (auto simp: js_index_def nat_less_iff)

lemma set_splice1: "set (splice1 i xs) \<subseteq> set xs"
  by (auto simp: splice1_def Let_def dest: in_set_takeD in_set_dropD)

lemma map_objs_upd:
  assumes "\<forall>a\<in>set xs. a < (n::nat)" and "n \<le> m"
  shows "map (f(m := r)) xs = map f xs"
proof (rule map_cong [OF refl])
  fix x assume "x \<in> set xs"
  with assms(1) have "x < n" by blast
  with assms(2) have "x \<noteq> m" by simp
  then show "(f(m := r)) x = f x" by simp
qed

lemma map_fresh_upd:
  assumes "\<forall>a\<in>set xs. a < (n::nat)"
  shows "map (f(Suc n := r)) xs = map f xs"
    and "map (f(Suc (Suc (Suc n)) := r)) xs = map f xs"
  using assms by (simp_all add: map_objs_upd [where n = n])

lemma applySingleEditSt_refines:
  assumes "\<forall>a\<in>set (arrs s hist). a < nextAddr s"
  shows "rowsOf (snd (applySingleEditSt tn s hist e)) (fst (applySingleEditSt tn s hist e))
       = applySingleEdit tn (rowsOf s hist) e"
  using assms
  by (simp add: applySingleEditSt_def applySingleEdit_def Let_def newArray_def newObject_def
      spliceSt_def setProp_def unshiftSt_def rowsOf_def js_index_map [symmetric]
      splice1_map [symmetric] map_fresh_upd split: prod.splits)

lemma applySingleEditSt_old_unchanged:
  "a < nextAddr s \<Longrightarrow>
     objs (snd (applySingleEditSt tn s hist e)) a = objs s a \<and>
     arrs (snd (applySingleEditSt tn s hist e)) a = arrs s a"
  by (simp add: applySingleEditSt_def Let_def newArray_def newObject_def spliceSt_def
      setProp_def unshiftSt_def split: prod.splits)

lemma applySingleEditSt_result_fresh:
  "fst (applySingleEditSt tn s hist e) = nextAddr s"
  by (simp add: applySingleEditSt_def Let_def newArray_def newObject_def spliceSt_def
      setProp_def unshiftSt_def split: prod.splits)

lemma applySingleEditSt_result_rows:
  "\<exists>front rest. arrs (snd (applySingleEditSt tn s hist e)) (nextAddr s) = front # rest
     \<and> nextAddr s < front \<and> set rest \<subseteq> set (arrs s hist)"
proof -
  have 1: "set (splice1 i (arrs s hist)) \<subseteq> set (arrs s hist)" for i
    by (rule set_splice1)
  have 2: "set (splice1 j (splice1 i (arrs s hist))) \<subseteq> set (arrs s hist)" for i j
    using set_splice1 [of j "splice1 i (arrs s hist)"] 1 [of i] by blast
  show ?thesis
    using 1 2
    by (simp add: applySingleEditSt_def Let_def newArray_def newObject_def spliceSt_def
        setProp_def unshiftSt_def split: prod.splits)
qed

section \<open>The claim about the input of applySingleEdit\<close>

text \<open>
  Claim C9: \<^verbatim>\<open>applySingleEdit\<close> does not mutate its input. For the input array \<open>hist\<close> and
  its rows, all allocated in the store before the call: after the call the input array
  holds the same row objects in the same order, every object and array that existed
  before the call (the input rows among them) is unchanged, the returned array is a new
  one, its first row (the merged or the new row) is a new object, and its other rows are
  rows of the input. Read through the store, the returned array is the histogram that the
  function on values computes.
\<close>

theorem applySingleEditSt_frame:
  assumes "hist < nextAddr s" and "\<forall>a\<in>set (arrs s hist). a < nextAddr s"
  shows "let (res, s') = applySingleEditSt tn s hist e in
           arrs s' hist = arrs s hist
         \<and> (\<forall>a\<in>set (arrs s hist). objs s' a = objs s a)
         \<and> (\<forall>a<nextAddr s. objs s' a = objs s a \<and> arrs s' a = arrs s a)
         \<and> nextAddr s \<le> res
         \<and> (\<exists>front rest. arrs s' res = front # rest \<and> nextAddr s \<le> front
               \<and> set rest \<subseteq> set (arrs s hist))
         \<and> rowsOf s' res = applySingleEdit tn (rowsOf s hist) e"
proof -
  obtain res s' where r: "applySingleEditSt tn s hist e = (res, s')"
    by (cases "applySingleEditSt tn s hist e")
  have old: "objs s' a = objs s a \<and> arrs s' a = arrs s a" if "a < nextAddr s" for a
    using applySingleEditSt_old_unchanged [OF that, of tn hist e] by (simp add: r)
  have res: "res = nextAddr s"
    using applySingleEditSt_result_fresh [of tn s hist e] by (simp add: r)
  have front: "\<exists>front rest. arrs s' res = front # rest \<and> nextAddr s \<le> front
               \<and> set rest \<subseteq> set (arrs s hist)"
    using applySingleEditSt_result_rows [of tn s hist e] unfolding r res
    by (auto intro: less_imp_le)
  have rows: "rowsOf s' res = applySingleEdit tn (rowsOf s hist) e"
    using applySingleEditSt_refines [OF assms(2), of tn e] by (simp add: r)
  show ?thesis
    unfolding r using old assms front rows res by simp
qed

text \<open>The theorem on a store with the rows a:1 and b:2 at the addresses 0 and 1 and the
  input array at the address 2, for the edit of a to b: the result, a new array at the
  address 3, holds the merged row b:3, and the input is as before.\<close>

theorem applySingleEditSt_frame_witness:
  "(2::nat) < 3
   \<and> (let s = \<lparr>objs = (\<lambda>_. Map.empty)
                    (0 := [''v'' \<mapsto> JStr ''a'', ''count'' \<mapsto> JNum 1],
                     1 := [''v'' \<mapsto> JStr ''b'', ''count'' \<mapsto> JNum 2]),
                 arrs = (\<lambda>_. [])(2 := [0, 1]), nextAddr = 3\<rparr>;
            (res, s') = applySingleEditSt tnNaN s 2
               \<lparr>column = ''v'', fromVal = JStr ''a'', toVal = JStr ''b'', timestamp = 0\<rparr>
        in res = 3 \<and> arrs s' 2 = [0, 1]
         \<and> objs s' 0 = [''v'' \<mapsto> JStr ''a'', ''count'' \<mapsto> JNum 1]
         \<and> objs s' 1 = [''v'' \<mapsto> JStr ''b'', ''count'' \<mapsto> JNum 2]
         \<and> rowsOf s' res = [[''v'' \<mapsto> JStr ''b'', ''count'' \<mapsto> JNum 3]])"
proof -
  let ?s = "\<lparr>objs = (\<lambda>_. Map.empty)
                    (0 := [''v'' \<mapsto> JStr ''a'', ''count'' \<mapsto> JNum 1],
                     1 := [''v'' \<mapsto> JStr ''b'', ''count'' \<mapsto> JNum 2]),
                 arrs = (\<lambda>_. [])(2 := [0, 1]), nextAddr = 3\<rparr>"
  let ?e = "\<lparr>column = ''v'', fromVal = JStr ''a'', toVal = JStr ''b'', timestamp = 0\<rparr>"
  have h: "2 < nextAddr ?s" by simp
  have rs: "\<forall>a\<in>set (arrs ?s 2). a < nextAddr ?s" by simp
  have fresh: "fst (applySingleEditSt tnNaN ?s 2 ?e) = 3"
    by (simp add: applySingleEditSt_result_fresh)
  have val: "applySingleEdit tnNaN (rowsOf ?s 2) ?e = [[''v'' \<mapsto> JStr ''b'', ''count'' \<mapsto> JNum 3]]"
    by (simp add: rowsOf_def applySingleEdit_def Let_def splice1_def js_index_def
        Object_assign_empty_def getProp_def loose_eq_def unbool_def js_add_JNum)
  from applySingleEditSt_frame [OF h rs, of tnNaN ?e] fresh val show ?thesis
    by (auto simp: Let_def split: prod.splits)
qed

section \<open>Properties of groupAutofetches\<close>

lemma sumPerDay_snoc:
  "sumPerDay (as @ [a]) = js_plus (sumPerDay as) (perDay (fetchInterval (wfModule a)))"
  by (simp add: sumPerDay_def)

lemma sumPerDay_Nil: "sumPerDay [] = Fin 0"
  by (simp add: sumPerDay_def)

lemma groupStep_keys:
  "map fst (groupStep G a) =
     (if workflow_id (workflow a) \<in> set (map fst G) then map fst G
      else map fst G @ [workflow_id (workflow a)])"
  by (auto simp: groupStep_def Let_def split: prod.splits)

lemma groupStep_entry:
  assumes "p \<in> set (groupStep G a)"
  shows "(fst p \<noteq> workflow_id (workflow a) \<and> p \<in> set G)
       \<or> (fst p = workflow_id (workflow a) \<and>
           (\<exists>g. (g = \<lparr>group_workflow = workflow a, nFetchesPerDay = Fin 0, group_autofetches = []\<rparr>
                  \<and> workflow_id (workflow a) \<notin> set (map fst G)
                \<or> (fst p, g) \<in> set G) \<and>
              snd p = g\<lparr>nFetchesPerDay :=
                             js_plus (nFetchesPerDay g) (perDay (fetchInterval (wfModule a))),
                         group_autofetches := group_autofetches g @ [a]\<rparr>))"
  using assms by (auto simp: groupStep_def Let_def split: prod.splits if_splits)

lemma foldl_groupStep:
  "distinct (map fst (foldl groupStep [] as))
   \<and> set (map fst (foldl groupStep [] as)) = (\<lambda>a. workflow_id (workflow a)) ` set as
   \<and> (\<forall>p\<in>set (foldl groupStep [] as).
         groupId (snd p) = fst p
       \<and> group_autofetches (snd p) = filter (\<lambda>a. workflow_id (workflow a) = fst p) as
       \<and> nFetchesPerDay (snd p) = sumPerDay (group_autofetches (snd p)))"
proof (induction as rule: rev_induct)
  case Nil
  then show ?case by simp
next
  case (snoc a as)
  let ?G = "foldl groupStep [] as"
  let ?k = "workflow_id (workflow a)"
  have step: "foldl groupStep [] (as @ [a]) = groupStep ?G a" by simp
  have d: "distinct (map fst ?G)"
    and ks: "set (map fst ?G) = (\<lambda>a. workflow_id (workflow a)) ` set as"
    and ent: "\<And>p. p \<in> set ?G \<Longrightarrow> groupId (snd p) = fst p
       \<and> group_autofetches (snd p) = filter (\<lambda>a. workflow_id (workflow a) = fst p) as
       \<and> nFetchesPerDay (snd p) = sumPerDay (group_autofetches (snd p))"
    using snoc.IH by blast+
  have 1: "distinct (map fst (groupStep ?G a))"
    using d by (simp add: groupStep_keys)
  have 2: "set (map fst (groupStep ?G a)) = (\<lambda>a. workflow_id (workflow a)) ` set (as @ [a])"
    using ks by (auto simp: groupStep_keys)
  have 3: "groupId (snd p) = fst p
       \<and> group_autofetches (snd p) = filter (\<lambda>a. workflow_id (workflow a) = fst p) (as @ [a])
       \<and> nFetchesPerDay (snd p) = sumPerDay (group_autofetches (snd p))"
    if p: "p \<in> set (groupStep ?G a)" for p
  proof -
    from groupStep_entry [OF p] consider
        (other) "fst p \<noteq> ?k" "p \<in> set ?G"
      | (fresh) "fst p = ?k" "?k \<notin> set (map fst ?G)"
          "snd p = \<lparr>group_workflow = workflow a,
                    nFetchesPerDay = js_plus (Fin 0) (perDay (fetchInterval (wfModule a))),
                    group_autofetches = [a]\<rparr>"
      | (old) g where "fst p = ?k" "(fst p, g) \<in> set ?G"
          "snd p = g\<lparr>nFetchesPerDay :=
                             js_plus (nFetchesPerDay g) (perDay (fetchInterval (wfModule a))),
                         group_autofetches := group_autofetches g @ [a]\<rparr>"
      by auto
    then show ?thesis
    proof cases
      case other
      then show ?thesis using ent [of p] by auto
    next
      case fresh
      have "?k \<notin> (\<lambda>a. workflow_id (workflow a)) ` set as"
        using fresh(2) ks by simp
      then have "\<forall>b\<in>set as. workflow_id (workflow b) \<noteq> ?k"
        by (metis imageI)
      then have "filter (\<lambda>b. workflow_id (workflow b) = ?k) as = []"
        by (simp add: filter_empty_conv)
      then show ?thesis
        using fresh by (simp add: groupId_def sumPerDay_def)
    next
      case old
      show ?thesis
        using ent [OF old(2)] old(1,3) by (simp add: groupId_def sumPerDay_snoc)
    qed
  qed
  show ?case
    unfolding step using 1 2 3 by blast
qed

lemma mset_Object_values: "mset (Object_values G) = mset (map snd G)"
proof -
  have "mset (filter (\<lambda>p. isArrayIndex (fst p)) G) + mset (filter (\<lambda>p. \<not> isArrayIndex (fst p)) G) = mset G"
    by (induction G) auto
  then have "image_mset snd (mset (filter (\<lambda>p. isArrayIndex (fst p)) G))
           + image_mset snd (mset (filter (\<lambda>p. \<not> isArrayIndex (fst p)) G)) = image_mset snd (mset G)"
    by (metis image_mset_union)
  then show ?thesis
    by (simp add: Object_values_def)
qed

lemma mset_insertSorted: "mset (insertSorted cmp x ys) = add_mset x (mset ys)"
  by (induction ys) auto

lemma mset_jsSort: "mset (jsSort cmp xs) = mset xs"
  by (induction xs) (auto simp: mset_insertSorted)

lemma set_insertSorted: "set (insertSorted cmp x ys) = insert x (set ys)"
  by (induction ys) auto

lemma sorted_insertSorted:
  assumes "sorted_wrt R ys"
    and "\<And>y. y \<in> set ys \<Longrightarrow> positive (cmp x y) \<Longrightarrow> R y x"
    and "\<And>y. y \<in> set ys \<Longrightarrow> \<not> positive (cmp x y) \<Longrightarrow> R x y"
    and "\<And>y z. y \<in> set ys \<Longrightarrow> z \<in> set ys \<Longrightarrow> R x y \<Longrightarrow> R y z \<Longrightarrow> R x z"
  shows "sorted_wrt R (insertSorted cmp x ys)"
  using assms
proof (induction ys)
  case Nil
  then show ?case by simp
next
  case (Cons y ys)
  show ?case
  proof (cases "positive (cmp x y)")
    case True
    have "sorted_wrt R (insertSorted cmp x ys)"
      using Cons.prems by (intro Cons.IH) auto
    then show ?thesis
      using True Cons.prems(1,2) by (auto simp: set_insertSorted)
  next
    case False
    then have xy: "R x y" using Cons.prems(3) by simp
    have "R x z" if "z \<in> set ys" for z
      using Cons.prems(4) [of y z] xy Cons.prems(1) that by auto
    then show ?thesis
      using False xy Cons.prems(1) by auto
  qed
qed
lemma js_plus_rate:
  assumes "v = PosInf \<or> (\<exists>x. v = Fin x)"
  shows "js_plus v (perDay y) = PosInf \<or> (\<exists>x. js_plus v (perDay y) = Fin x)"
  using assms by (auto simp: perDay_def)

lemma foldl_js_plus_rate:
  assumes "v = PosInf \<or> (\<exists>x. v = Fin x)"
  shows "foldl js_plus v (map perDay ys) = PosInf \<or> (\<exists>x. foldl js_plus v (map perDay ys) = Fin x)"
  using assms
proof (induction ys arbitrary: v)
  case Nil
  then show ?case by simp
next
  case (Cons y ys)
  show ?case
    using Cons.IH [OF js_plus_rate [OF Cons.prems, of y]] by simp
qed

lemma sumPerDay_rate: "sumPerDay as = PosInf \<or> (\<exists>x. sumPerDay as = Fin x)"
proof -
  have "map (\<lambda>a. perDay (fetchInterval (wfModule a))) as = map perDay (map (\<lambda>a. fetchInterval (wfModule a)) as)"
    by simp
  then show ?thesis
    unfolding sumPerDay_def using foldl_js_plus_rate [of "Fin 0"] by (metis (no_types))
qed

lemma compareGroups_order:
  assumes "nFetchesPerDay a = PosInf \<or> (\<exists>x. nFetchesPerDay a = Fin x)"
    and "nFetchesPerDay b = PosInf \<or> (\<exists>x. nFetchesPerDay b = Fin x)"
  shows "(\<not> positive (compareGroups lc a b)) =
         (js_le (nFetchesPerDay b) (nFetchesPerDay a) \<and>
          (nFetchesPerDay a = nFetchesPerDay b \<longrightarrow>
             lc (workflow_name (group_workflow a)) (workflow_name (group_workflow b)) \<le> 0))"
  using assms by (auto simp: compareGroups_def js_minus_def Let_def)

lemma js_le_total:
  assumes "u = PosInf \<or> (\<exists>x. u = Fin x)" and "v = PosInf \<or> (\<exists>x. v = Fin x)"
  shows "js_le u v \<or> js_le v u"
  using assms by auto

lemma js_le_antisym:
  assumes "u = PosInf \<or> (\<exists>x. u = Fin x)" and "v = PosInf \<or> (\<exists>x. v = Fin x)"
    and "js_le u v" and "js_le v u"
  shows "u = v"
  using assms by auto

lemma js_le_trans:
  assumes "u = PosInf \<or> (\<exists>x. u = Fin x)" and "v = PosInf \<or> (\<exists>x. v = Fin x)"
    and "w = PosInf \<or> (\<exists>x. w = Fin x)"
    and "js_le u v" and "js_le v w"
  shows "js_le u w"
  using assms by auto


lemma sorted_jsSort_groups:
  assumes c: "consistentCompare lc"
    and good: "\<forall>g\<in>set gs. nFetchesPerDay g = PosInf \<or> (\<exists>x. nFetchesPerDay g = Fin x)"
  shows "sorted_wrt
           (\<lambda>a b. js_le (nFetchesPerDay b) (nFetchesPerDay a) \<and>
                  (nFetchesPerDay a = nFetchesPerDay b \<longrightarrow>
                     lc (workflow_name (group_workflow a)) (workflow_name (group_workflow b)) \<le> 0))
           (jsSort (compareGroups lc) gs)"
  using good
proof (induction gs)
  case Nil
  then show ?case by simp
next
  case (Cons g gs)
  let ?R = "\<lambda>a b. js_le (nFetchesPerDay b) (nFetchesPerDay a) \<and>
                  (nFetchesPerDay a = nFetchesPerDay b \<longrightarrow>
                     lc (workflow_name (group_workflow a)) (workflow_name (group_workflow b)) \<le> 0)"
  have tot: "lc x y \<le> 0 \<or> lc y x \<le> 0" for x y
    using c unfolding consistentCompare_def by blast
  have tr: "lc x y \<le> 0 \<Longrightarrow> lc y z \<le> 0 \<Longrightarrow> lc x z \<le> 0" for x y z
    using c unfolding consistentCompare_def by blast
  have gg: "nFetchesPerDay g = PosInf \<or> (\<exists>x. nFetchesPerDay g = Fin x)"
    using Cons.prems by simp
  have gy: "nFetchesPerDay y = PosInf \<or> (\<exists>x. nFetchesPerDay y = Fin x)"
    if "y \<in> set (jsSort (compareGroups lc) gs)" for y
  proof -
    from that have "y \<in># mset (jsSort (compareGroups lc) gs)" by simp
    then have "y \<in> set gs" by (simp add: mset_jsSort)
    then show ?thesis using Cons.prems by simp
  qed
  have IH: "sorted_wrt ?R (jsSort (compareGroups lc) gs)"
    using Cons.prems by (intro Cons.IH) simp
  have "sorted_wrt ?R (insertSorted (compareGroups lc) g (jsSort (compareGroups lc) gs))"
  proof (rule sorted_insertSorted [OF IH])
    fix y assume y: "y \<in> set (jsSort (compareGroups lc) gs)" and p: "positive (compareGroups lc g y)"
    have nR: "\<not> ?R g y"
      using p compareGroups_order [OF gg gy [OF y], of lc] by simp
    show "?R y g"
    proof (cases "js_le (nFetchesPerDay y) (nFetchesPerDay g)")
      case True
      then have eq: "nFetchesPerDay g = nFetchesPerDay y"
        and "\<not> lc (workflow_name (group_workflow g)) (workflow_name (group_workflow y)) \<le> 0"
        using nR by simp_all
      then have "lc (workflow_name (group_workflow y)) (workflow_name (group_workflow g)) \<le> 0"
        using tot [of "workflow_name (group_workflow g)" "workflow_name (group_workflow y)"] by simp
      then show ?thesis using True eq by simp
    next
      case False
      then have le: "js_le (nFetchesPerDay g) (nFetchesPerDay y)"
        using js_le_total [OF gg gy [OF y]] by simp
      have "nFetchesPerDay y \<noteq> nFetchesPerDay g"
        using False le by auto
      then show ?thesis using le by simp
    qed
  next
    fix y assume y: "y \<in> set (jsSort (compareGroups lc) gs)" and p: "\<not> positive (compareGroups lc g y)"
    then show "?R g y"
      using compareGroups_order [OF gg gy [OF y], of lc] by simp
  next
    fix y z assume y: "y \<in> set (jsSort (compareGroups lc) gs)"
      and z: "z \<in> set (jsSort (compareGroups lc) gs)" and gy': "?R g y" and yz: "?R y z"
    have le: "js_le (nFetchesPerDay z) (nFetchesPerDay g)"
      using js_le_trans [OF gy [OF z] gy [OF y] gg] gy' yz by simp
    have "lc (workflow_name (group_workflow g)) (workflow_name (group_workflow z)) \<le> 0"
      if eq: "nFetchesPerDay g = nFetchesPerDay z"
    proof -
      have "js_le (nFetchesPerDay g) (nFetchesPerDay y)"
        using yz eq by simp
      then have 1: "nFetchesPerDay g = nFetchesPerDay y"
        using js_le_antisym [OF gg gy [OF y]] gy' by simp
      then have 2: "nFetchesPerDay y = nFetchesPerDay z" using eq by simp
      have "lc (workflow_name (group_workflow g)) (workflow_name (group_workflow y)) \<le> 0"
        using gy' 1 by simp
      moreover have "lc (workflow_name (group_workflow y)) (workflow_name (group_workflow z)) \<le> 0"
        using yz 2 by simp
      ultimately show ?thesis
        by (rule tr)
    qed
    then show "?R g z" using le by simp
  qed
  then show ?case by simp
qed

section \<open>The claim about groupAutofetches\<close>

lemma consistentCompare_compareChars: "consistentCompare compareChars"
  unfolding consistentCompare_def compareChars_def by auto

lemma foldl_js_plus_finite:
  "0 \<notin> set xs \<Longrightarrow>
     foldl js_plus (Fin v) (map perDay xs) = Fin (v + sum_list (map (\<lambda>x. 86400 / x) xs))"
  by (induction xs arbitrary: v) (auto simp: perDay_def add.assoc)

lemma sumPerDay_finite:
  assumes "\<forall>a\<in>set as. fetchInterval (wfModule a) \<noteq> 0"
  shows "sumPerDay as = Fin (\<Sum>a\<leftarrow>as. 86400 / fetchInterval (wfModule a))"
proof -
  have "0 \<notin> set (map (\<lambda>a. fetchInterval (wfModule a)) as)"
    using assms by auto
  from foldl_js_plus_finite [OF this, of 0] show ?thesis
    by (simp add: sumPerDay_def comp_def)
qed

lemma groupAutofetches_example:
  "groupAutofetches compareChars
     [\<lparr>workflow = \<lparr>workflow_id = 7, workflow_name = ''beta''\<rparr>, tab = \<lparr>tab_name = ''Tab 1''\<rparr>,
       wfModule = \<lparr>wfModule_id = 1, fetchInterval = 3600\<rparr>\<rparr>,
      \<lparr>workflow = \<lparr>workflow_id = 3, workflow_name = ''alpha''\<rparr>, tab = \<lparr>tab_name = ''Tab 1''\<rparr>,
       wfModule = \<lparr>wfModule_id = 2, fetchInterval = 7200\<rparr>\<rparr>,
      \<lparr>workflow = \<lparr>workflow_id = 5, workflow_name = ''gamma''\<rparr>, tab = \<lparr>tab_name = ''Tab 1''\<rparr>,
       wfModule = \<lparr>wfModule_id = 3, fetchInterval = 1800\<rparr>\<rparr>,
      \<lparr>workflow = \<lparr>workflow_id = 3, workflow_name = ''alpha''\<rparr>, tab = \<lparr>tab_name = ''Tab 2''\<rparr>,
       wfModule = \<lparr>wfModule_id = 4, fetchInterval = 7200\<rparr>\<rparr>]
   = [\<lparr>group_workflow = \<lparr>workflow_id = 5, workflow_name = ''gamma''\<rparr>, nFetchesPerDay = Fin 48,
       group_autofetches =
         [\<lparr>workflow = \<lparr>workflow_id = 5, workflow_name = ''gamma''\<rparr>, tab = \<lparr>tab_name = ''Tab 1''\<rparr>,
           wfModule = \<lparr>wfModule_id = 3, fetchInterval = 1800\<rparr>\<rparr>]\<rparr>,
      \<lparr>group_workflow = \<lparr>workflow_id = 3, workflow_name = ''alpha''\<rparr>, nFetchesPerDay = Fin 24,
       group_autofetches =
         [\<lparr>workflow = \<lparr>workflow_id = 3, workflow_name = ''alpha''\<rparr>, tab = \<lparr>tab_name = ''Tab 1''\<rparr>,
           wfModule = \<lparr>wfModule_id = 2, fetchInterval = 7200\<rparr>\<rparr>,
          \<lparr>workflow = \<lparr>workflow_id = 3, workflow_name = ''alpha''\<rparr>, tab = \<lparr>tab_name = ''Tab 2''\<rparr>,
           wfModule = \<lparr>wfModule_id = 4, fetchInterval = 7200\<rparr>\<rparr>]\<rparr>,
      \<lparr>group_workflow = \<lparr>workflow_id = 7, workflow_name = ''beta''\<rparr>, nFetchesPerDay = Fin 24,
       group_autofetches =
         [\<lparr>workflow = \<lparr>workflow_id = 7, workflow_name = ''beta''\<rparr>, tab = \<lparr>tab_name = ''Tab 1''\<rparr>,
           wfModule = \<lparr>wfModule_id = 1, fetchInterval = 3600\<rparr>\<rparr>]\<rparr>]"
  by (simp add: groupAutofetches_def groupStep_def Let_def Object_values_def isArrayIndex_def
      compareGroups_def js_minus_def perDay_def compareChars_def)



section \<open>The claim about the saved edit log\<close>

lemma editOfJson_jsonOfEdit:
  "editOfJson (jsonOfEdit e) =
     Some (e\<lparr>fromVal := viaJson (fromVal e), toVal := viaJson (toVal e)\<rparr>)"
  by (cases "fromVal e"; cases "toVal e";
      simp add: editOfJson_def jsonOfEdit_def jsonLookup_def valOfJson_def jsonMember_def
        jsonOfVal_def viaJson_def)

lemma those_map_Some:
  "(\<And>x. x \<in> set xs \<Longrightarrow> f x = Some (g x)) \<Longrightarrow> those (map f xs) = Some (map g xs)"
  by (induction xs) auto

lemma JSON_parse_stringify:
  "JSON_parse (JSON_stringify es) =
     Some (map (\<lambda>e. e\<lparr>fromVal := viaJson (fromVal e), toVal := viaJson (toVal e)\<rparr>) es)"
proof -
  have "those (map editOfJson (map jsonOfEdit es)) =
      Some (map (\<lambda>e. e\<lparr>fromVal := viaJson (fromVal e), toVal := viaJson (toVal e)\<rparr>) es)"
    unfolding map_map
    by (rule those_map_Some) (simp add: editOfJson_jsonOfEdit)
  then show ?thesis
    by (simp add: JSON_parse_def JSON_stringify_def)
qed

lemma valOfJson_no_NaN: "valOfJson j = Some v \<Longrightarrow> v \<noteq> JNaN"
  by (auto simp: valOfJson_def split: option.splits json.splits)

lemma editOfJson_no_NaN:
  "editOfJson j = Some e \<Longrightarrow> fromVal e \<noteq> JNaN \<and> toVal e \<noteq> JNaN"
  by (auto simp: editOfJson_def split: json.splits option.splits dest: valOfJson_no_NaN)

lemma those_Some_nth:
  "those xs = Some ys \<Longrightarrow> y \<in> set ys \<Longrightarrow> Some y \<in> set xs"
  by (induction xs arbitrary: ys) (auto split: option.splits)

lemma JSON_parse_no_NaN:
  assumes "JSON_parse text = Some es"
  shows "\<forall>e\<in>set es. fromVal e \<noteq> JNaN \<and> toVal e \<noteq> JNaN"
proof
  fix e assume e: "e \<in> set es"
  from assms obtain items where "text = JsonArr items"
    and items: "those (map editOfJson items) = Some es"
    by (auto simp: JSON_parse_def split: json.splits)
  have "Some e \<in> set (map editOfJson items)"
    using items e by (rule those_Some_nth)
  then obtain j where "editOfJson j = Some e" by auto
  then show "fromVal e \<noteq> JNaN \<and> toVal e \<noteq> JNaN"
    by (rule editOfJson_no_NaN)
qed

lemma JSON_parse_stringify_snoc:
  assumes "JSON_parse text = Some es"
  shows "JSON_parse (JSON_stringify (es @ [e])) =
     Some (es @ [e\<lparr>fromVal := viaJson (fromVal e), toVal := viaJson (toVal e)\<rparr>])"
proof -
  have "x\<lparr>fromVal := viaJson (fromVal x), toVal := viaJson (toVal x)\<rparr> = x" if "x \<in> set es" for x
    using JSON_parse_no_NaN [OF assms] that by (simp add: viaJson_def split: jsval.splits)
  then have "map (\<lambda>e. e\<lparr>fromVal := viaJson (fromVal e), toVal := viaJson (toVal e)\<rparr>) es = es"
    by (simp add: map_idI)
  then show ?thesis
    by (simp add: JSON_parse_stringify)
qed




end
